theory Spec2Isabelle
  imports Complex_Main "HOL-Library.Word"
begin

section \<open>Strings of the Go standard library\<close>

text \<open>
  Go strings are byte sequences; they are modelled by \<open>string\<close>. An \<open>error\<close> value is
  represented by the text that its \<open>Error()\<close> method returns, which is all the program
  ever reads from it. \<open>float64\<close> is modelled by \<open>real\<close> and the conversion
  \<open>float64(n)\<close> of an \<open>int\<close> by \<open>real_of_int\<close>: rounding is not modelled.
\<close>

type_synonym bytes = string
type_synonym error = string

text \<open>\<open>strings.HasPrefix\<close> and \<open>strings.Contains\<close>.\<close>

fun HasPrefix :: "string \<Rightarrow> string \<Rightarrow> bool" where
  "HasPrefix s [] = True"
| "HasPrefix [] (c # sub) = False"
| "HasPrefix (d # s) (c # sub) = (d = c \<and> HasPrefix s sub)"

fun Contains :: "string \<Rightarrow> string \<Rightarrow> bool" where
  "Contains [] sub = (sub = [])"
| "Contains (d # s) sub = (HasPrefix (d # s) sub \<or> Contains s sub)"

text \<open>\<open>strconv.Itoa\<close>: the decimal text of an integer.\<close>

definition digit :: "nat \<Rightarrow> char" where
  "digit d = ''0123456789'' ! d"

fun utoa :: "nat \<Rightarrow> string" where
  "utoa n = (if n < 10 then [digit n] else utoa (n div 10) @ [digit (n mod 10)])"

declare utoa.simps [simp del]

definition Itoa :: "int \<Rightarrow> string" where
  "Itoa i = (if i < 0 then CHR ''-'' # utoa (nat (- i)) else utoa (nat i))"

section \<open>The data source adapter (package casadm)\<close>

text \<open>
  The two structs that the CSV output of \<open>casadm\<close> is decoded into. The fields
  \<open>ID\<close>, \<open>Device\<close>, \<open>Status\<close> and \<open>WritePolicy\<close> occur in both structs; those of
  \<open>CacheStats\<close> carry the prefix \<open>Stats\<close> here.
\<close>

record Cache =
  Type :: string
  ID :: "16 word"
  Disk :: string
  Status :: string
  WritePolicy :: string
  Device :: string

record CacheStats =
  StatsID :: "16 word"
  Size4K :: "real"
  SizeGB :: "real"
  StatsDevice :: "string"
  ExportedObject :: "string"
  CoreDevices :: "int"
  InactiveCoreDevices :: "int"
  StatsWritePolicy :: "string"
  CleaningPolicy :: "string"
  PromotionPolicy :: "string"
  CacheLineSizeKB :: "real"
  MetadataMemoryFootprintMB :: "real"
  DirtyForS :: "int"
  DirtyFor :: "string"
  StatsStatus :: "string"
  Occupancy4K :: "int"
  OccupancyPercent :: "real"
  Free4K :: "int"
  FreePercent :: "real"
  Clean4K :: "int"
  CleanPercent :: "real"
  Dirty4K :: "int"
  DirtyPercent :: "real"
  ReadHitsRequests :: "int"
  ReadHitsPercent :: "real"
  ReadPartialMissesRequests :: "int"
  ReadPartialMissesPercent :: "real"
  ReadFullMissesRequests :: "int"
  ReadFullMissesPercent :: "real"
  ReadTotalRequests :: "int"
  ReadTotalPercent :: "real"
  WriteHitsRequests :: "int"
  WriteHitsPercent :: "real"
  WritePartialMissesRequests :: "int"
  WritePartialMissesPercent :: "real"
  WriteFullMissesRequests :: "int"
  WriteFullMissesPercent :: "real"
  WriteTotalRequests :: "int"
  WriteTotalPercent :: "real"
  PassThroughReadsRequests :: "int"
  PassThroughReadsPercent :: "real"
  PassThroughWritesRequests :: "int"
  PassThroughWritesPercent :: "real"
  ServicedRequestsRequests :: "int"
  ServicedRequestsPercent :: "real"
  TotalRequestsRequests :: "int"
  TotalRequestsPercent :: "real"
  ReadsFromCores4K :: "int"
  ReadsFromCoresPercent :: "real"
  WritesFromCores4K :: "int"
  WritesFromCoresPercent :: "real"
  TotalToFromCores4K :: "int"
  TotalToFromCoresPercent :: "real"
  ReadsFromCache4K :: "int"
  ReadsFromCachePercent :: "real"
  WritesToCachce4K :: "int"
  WritesToCachcePercent :: "real"
  TotalToFromCache4K :: "int"
  TotalToFromCachePercent :: "real"
  ReadsFromExportedObjects4K :: "int"
  ReadsFromExportedObjectsPercent :: "real"
  WritesToExportedObjects4K :: "int"
  WritesToExportedObjectsPercent :: "real"
  TotalToFromExportedObjects4K :: "int"
  TotalToFromExportedObjectsPercent :: "real"
  CacheReadErrorsRequests :: "int"
  CacheReadErrorsPercent :: "real"
  CacheWriteErrorsRequests :: "int"
  CacheWriteErrorsPercent :: "real"
  CacheTotalErrorsRequests :: "int"
  CacheTotalErrorsPercent :: "real"
  CoreReadErrorsRequests :: "int"
  CoreReadErrorsPercent :: "real"
  CoreWriteErrorsRequests :: "int"
  CoreWriteErrorsPercent :: "real"
  CoreTotalErrorsRequests :: "int"
  CoreTotalErrorsPercent :: "real"
  TotalErrorsRequests :: "int"
  TotalErrorsPercent :: "real"

text \<open>
  The world outside the program, as one extraction cycle sees it: what running
  \<open>casadm\<close> with given arguments returns (\<open>CombinedOutput\<close>: the captured output and
  the error, if any), what \<open>gocsv.UnmarshalBytes\<close> makes of a byte string for each of
  the two target types, and the seconds that \<open>time.Since(start)\<close> measures at the end
  of the cycle. Within one cycle a command is taken to answer the same arguments with
  the same output.
\<close>

record env =
  CombinedOutput :: "string list \<Rightarrow> bytes \<times> error option"
  UnmarshalCaches :: "bytes \<Rightarrow> error + Cache list"
  UnmarshalStats :: "bytes \<Rightarrow> error + CacheStats list"
  Since :: real

definition quote :: "bytes \<Rightarrow> string" where
  "quote b = [CHR 0x27] @ b @ [CHR 0x27]"

definition ListCaches_args :: "string list" where
  "ListCaches_args = [''--list-caches'', ''--output-format'', ''csv'']"

definition GetCacheStats_args :: "16 word \<Rightarrow> string list" where
  "GetCacheStats_args cacheID =
     [''--stats'', ''--cache-id'', Itoa (uint cacheID), ''--output-format'', ''csv'']"

definition ListCaches :: "env \<Rightarrow> error + Cache list" where
  "ListCaches w =
     (case CombinedOutput w ListCaches_args of
        (b, Some err) \<Rightarrow> Inl (''list caches: '' @ err @ '': '' @ quote b)
      | (b, None) \<Rightarrow>
          (case UnmarshalCaches w b of
             Inl err \<Rightarrow> Inl (''unmarshal list caches csv: '' @ err)
           | Inr caches \<Rightarrow> Inr caches))"

definition GetCacheStats :: "env \<Rightarrow> 16 word \<Rightarrow> error + CacheStats" where
  "GetCacheStats w cacheID =
     (case CombinedOutput w (GetCacheStats_args cacheID) of
        (b, Some err) \<Rightarrow> Inl (''list caches: '' @ err @ '': '' @ quote b)
      | (b, None) \<Rightarrow>
          (case UnmarshalStats w b of
             Inl err \<Rightarrow> Inl (''unmarshal cache stats csv: '' @ err)
           | Inr stats \<Rightarrow>
               (case stats of
                  [] \<Rightarrow> Inl ''missing cache stats''
                | st # rest \<Rightarrow> Inr st)))"

section \<open>The exporter (package casexporter)\<close>

text \<open>
  A \<open>GaugeVec\<close> is a table from label values to the gauge's value; \<open>With(labels)\<close>
  creates the child on first use and \<open>Set\<close> overwrites it. The labels of the two
  statistics vectors are (device, id, category, subcategory); the duration and success
  vectors have no label, hence at most one child.
\<close>

type_synonym labels = "string \<times> string \<times> string \<times> string"

datatype adapter_call = CallListCaches | CallGetCacheStats "16 word"

text \<open>
  The field \<open>calls\<close> is not in the Go struct: it logs the adapter operations that
  \<open>Start\<close> has invoked, in order.
\<close>

record CasExporter =
  extractionInterval :: nat
  ocfStatCount :: "labels \<rightharpoonup> real"
  ocfStatPercentage :: "labels \<rightharpoonup> real"
  ocfStatDuration :: "real option"
  ocfStatSuccess :: "real option"
  calls :: "adapter_call list"

definition NewCasExporter :: "nat \<Rightarrow> CasExporter" where
  "NewCasExporter interval =
     \<lparr>extractionInterval = interval, ocfStatCount = Map.empty,
      ocfStatPercentage = Map.empty, ocfStatDuration = None, ocfStatSuccess = None,
      calls = []\<rparr>"

text \<open>The \<open>Set\<close> calls on \<open>ocfStatCount\<close> for one sampled cache, in source order.\<close>

definition count_points :: "CacheStats \<Rightarrow> (string \<times> string \<times> real) list" where
  "count_points stats =
     [
      (''usage'', ''occupancy'', real_of_int (Occupancy4K stats)),
      (''usage'', ''free'', real_of_int (Free4K stats)),
      (''usage'', ''clean'', real_of_int (Clean4K stats)),
      (''usage'', ''dirty'', real_of_int (Dirty4K stats)),
      (''requests'', ''rd_hits'', real_of_int (ReadHitsRequests stats)),
      (''requests'', ''rd_partial_misses'', real_of_int (ReadPartialMissesRequests stats)),
      (''requests'', ''rd_full_misses'', real_of_int (ReadFullMissesRequests stats)),
      (''requests'', ''rd_total'', real_of_int (ReadTotalRequests stats)),
      (''requests'', ''wr_hits'', real_of_int (WriteHitsRequests stats)),
      (''requests'', ''wr_partial_misses'', real_of_int (WritePartialMissesRequests stats)),
      (''requests'', ''wr_full_misses'', real_of_int (WriteFullMissesRequests stats)),
      (''requests'', ''wr_total'', real_of_int (WriteTotalRequests stats)),
      (''requests'', ''rd_pt'', ReadTotalPercent stats),
      (''requests'', ''wr_pt'', WriteTotalPercent stats),
      (''requests'', ''serviced'', real_of_int (ServicedRequestsRequests stats)),
      (''requests'', ''total'', real_of_int (TotalRequestsRequests stats)),
      (''blocks'', ''core_volume_rd'', real_of_int (ReadsFromCores4K stats)),
      (''blocks'', ''core_volume_wr'', real_of_int (WritesFromCores4K stats)),
      (''blocks'', ''core_volume_total'', real_of_int (TotalToFromCores4K stats)),
      (''blocks'', ''cache_volume_rd'', real_of_int (ReadsFromCache4K stats)),
      (''blocks'', ''cache_volume_wr'', real_of_int (WritesToCachce4K stats)),
      (''blocks'', ''cache_volume_total'', real_of_int (TotalToFromCache4K stats)),
      (''blocks'', ''volume_rd'', real_of_int (ReadsFromExportedObjects4K stats)),
      (''blocks'', ''volume_wr'', real_of_int (WritesToExportedObjects4K stats)),
      (''blocks'', ''volume_total'', real_of_int (TotalToFromExportedObjects4K stats)),
      (''errors'', ''cache_volume_rd'', real_of_int (CacheReadErrorsRequests stats)),
      (''errors'', ''cache_volume_wr'', real_of_int (CacheWriteErrorsRequests stats)),
      (''errors'', ''cache_volume_total'', real_of_int (CacheTotalErrorsRequests stats)),
      (''errors'', ''core_volume_rd'', real_of_int (CoreReadErrorsRequests stats)),
      (''errors'', ''core_volume_wr'', real_of_int (CoreWriteErrorsRequests stats)),
      (''errors'', ''core_volume_total'', real_of_int (CoreTotalErrorsRequests stats)),
      (''errors'', ''total'', real_of_int (TotalErrorsRequests stats))
     ]"

text \<open>The \<open>Set\<close> calls on \<open>ocfStatPercentage\<close>, in source order.\<close>

definition percent_points :: "CacheStats \<Rightarrow> (string \<times> string \<times> real) list" where
  "percent_points stats =
     [
      (''usage'', ''occupancy'', OccupancyPercent stats),
      (''usage'', ''free'', FreePercent stats),
      (''usage'', ''clean'', CleanPercent stats),
      (''usage'', ''dirty'', DirtyPercent stats),
      (''requests'', ''rd_hits'', ReadHitsPercent stats),
      (''requests'', ''rd_partial_misses'', ReadPartialMissesPercent stats),
      (''requests'', ''rd_full_misses'', ReadFullMissesPercent stats),
      (''requests'', ''rd_total'', ReadTotalPercent stats),
      (''requests'', ''wr_hits'', WriteHitsPercent stats),
      (''requests'', ''wr_partial_misses'', WritePartialMissesPercent stats),
      (''requests'', ''wr_full_misses'', WriteFullMissesPercent stats),
      (''requests'', ''wr_total'', WriteTotalPercent stats),
      (''requests'', ''rd_pt'', ReadTotalPercent stats),
      (''requests'', ''wr_pt'', WriteTotalPercent stats),
      (''requests'', ''serviced'', ServicedRequestsPercent stats),
      (''requests'', ''total'', TotalRequestsPercent stats),
      (''blocks'', ''core_volume_rd'', ReadsFromCoresPercent stats),
      (''blocks'', ''core_volume_wr'', WritesFromCoresPercent stats),
      (''blocks'', ''core_volume_total'', TotalToFromCoresPercent stats),
      (''blocks'', ''cache_volume_rd'', ReadsFromCachePercent stats),
      (''blocks'', ''cache_volume_wr'', WritesToCachcePercent stats),
      (''blocks'', ''cache_volume_total'', TotalToFromCachePercent stats),
      (''blocks'', ''volume_rd'', ReadsFromExportedObjectsPercent stats),
      (''blocks'', ''volume_wr'', WritesToExportedObjectsPercent stats),
      (''blocks'', ''volume_total'', TotalToFromExportedObjectsPercent stats),
      (''errors'', ''cache_volume_rd'', CacheReadErrorsPercent stats),
      (''errors'', ''cache_volume_wr'', CacheWriteErrorsPercent stats),
      (''errors'', ''cache_volume_total'', CacheTotalErrorsPercent stats),
      (''errors'', ''core_volume_rd'', CoreReadErrorsPercent stats),
      (''errors'', ''core_volume_wr'', CoreWriteErrorsPercent stats),
      (''errors'', ''core_volume_total'', CoreTotalErrorsPercent stats),
      (''errors'', ''total'', TotalErrorsPercent stats)
     ]"

definition Set_gauge ::
  "string \<Rightarrow> string \<Rightarrow> string \<times> string \<times> real \<Rightarrow> (labels \<rightharpoonup> real) \<Rightarrow> (labels \<rightharpoonup> real)" where
  "Set_gauge dev ident p m = (case p of (cat, sub, v) \<Rightarrow> m((dev, ident, cat, sub) \<mapsto> v))"

definition observe :: "Cache \<Rightarrow> CacheStats \<Rightarrow> CasExporter \<Rightarrow> CasExporter" where
  "observe c stats e =
     e\<lparr>ocfStatCount :=
          fold (Set_gauge (Device c) (Itoa (uint (ID c)))) (count_points stats) (ocfStatCount e),
        ocfStatPercentage :=
          fold (Set_gauge (Device c) (Itoa (uint (ID c)))) (percent_points stats)
            (ocfStatPercentage e)\<rparr>"

text \<open>
  The body of \<open>for _, c := range caches\<close>, with the local variable \<open>success\<close>
  threaded through.
\<close>

fun range_caches :: "env \<Rightarrow> Cache list \<Rightarrow> int \<Rightarrow> CasExporter \<Rightarrow> int \<times> CasExporter" where
  "range_caches w [] success e = (success, e)"
| "range_caches w (c # cs) success e =
     (if Device c = ''-'' then range_caches w cs success e
      else
        (case GetCacheStats w (ID c) of
           Inl err \<Rightarrow>
             range_caches w cs 0 (e\<lparr>calls := calls e @ [CallGetCacheStats (ID c)]\<rparr>)
         | Inr stats \<Rightarrow>
             range_caches w cs success
               (observe c stats (e\<lparr>calls := calls e @ [CallGetCacheStats (ID c)]\<rparr>))))"

text \<open>One pass through the \<open>default\<close> branch of the loop of \<open>Start\<close>, up to the sleep.\<close>

definition cycle :: "env \<Rightarrow> CasExporter \<Rightarrow> CasExporter" where
  "cycle w e =
     (let e1 = e\<lparr>calls := calls e @ [CallListCaches]\<rparr>;
          (success, e2) =
            (case ListCaches w of
               Inl err \<Rightarrow> (0, e1)
             | Inr caches \<Rightarrow> range_caches w caches 1 e1)
      in e2\<lparr>ocfStatDuration := Some (Since w),
             ocfStatSuccess := Some (real_of_int success)\<rparr>)"

section \<open>The loop of \<open>Start\<close>\<close>

text \<open>
  \<open>Start\<close> is an endless \<open>for\<close> around a \<open>select\<close>: when \<open>ctx.Done()\<close> is closed it
  calls \<open>wg.Done()\<close> and returns; otherwise it runs one cycle and then calls
  \<open>time.Sleep(e.extractionInterval)\<close>. The loop is modelled as a machine that makes one
  move per tick of a logical clock: \<open>AtSelect\<close> is the head of the loop,
  \<open>Sleeping k\<close> is inside \<open>time.Sleep\<close> with \<open>k\<close> ticks left, \<open>Returned\<close> is after
  the \<open>return\<close>. The first argument of a move tells whether \<open>ctx.Done()\<close> is closed at
  that tick. \<open>time.Sleep\<close> takes no context, so a move inside the sleep does not read it.
\<close>

datatype sched_pc = AtSelect | Sleeping nat | Returned

fun Start_pc :: "bool \<Rightarrow> nat \<Rightarrow> sched_pc \<Rightarrow> sched_pc" where
  "Start_pc cancelled interval AtSelect = (if cancelled then Returned else Sleeping interval)"
| "Start_pc cancelled interval (Sleeping 0) = AtSelect"
| "Start_pc cancelled interval (Sleeping (Suc k)) = Sleeping k"
| "Start_pc cancelled interval Returned = Returned"

definition Start_step :: "env \<Rightarrow> bool \<Rightarrow> sched_pc \<times> CasExporter \<Rightarrow> sched_pc \<times> CasExporter" where
  "Start_step w cancelled st =
     (case st of (pc, e) \<Rightarrow>
        (Start_pc cancelled (extractionInterval e) pc,
         if pc = AtSelect \<and> \<not> cancelled then cycle w e else e))"

text \<open>
  \<open>Start_run ws cancelled n\<close> makes \<open>n\<close> moves; \<open>ws t\<close> is the world and
  \<open>cancelled t\<close> the state of the context at tick \<open>t\<close>.
\<close>

fun Start_run ::
  "(nat \<Rightarrow> env) \<Rightarrow> (nat \<Rightarrow> bool) \<Rightarrow> nat \<Rightarrow> sched_pc \<times> CasExporter \<Rightarrow> sched_pc \<times> CasExporter" where
  "Start_run ws cancelled 0 st = st"
| "Start_run ws cancelled (Suc n) st =
     Start_step (ws n) (cancelled n) (Start_run ws cancelled n st)"

section \<open>The process: \<open>main\<close>, \<open>Start\<close>, \<open>Serve\<close> and the listener\<close>

text \<open>
  \<open>main\<close> starts \<open>Start\<close> and \<open>Serve\<close> as goroutines, adds each to the wait group,
  waits for \<open>os.Interrupt\<close>, cancels the context and waits for the group. \<open>Serve\<close>
  starts a further goroutine around \<open>srv.ListenAndServe()\<close>, which calls
  \<open>os.Exit(1)\<close> when that returns a non-nil error; \<open>Serve\<close> itself waits for the
  context, calls \<open>srv.Shutdown\<close> and then \<open>wg.Done()\<close>.

  The goroutines interleave, so the process is a step relation on the program counters of
  the four goroutines and the variables they share. Two facts of \<open>net/http\<close> are built
  in: \<open>ListenAndServe\<close> returns only with a non-nil error, and once \<open>Shutdown\<close> has
  been called it returns \<open>ErrServerClosed\<close>. The field \<open>listen_failed\<close> is a ghost:
  it records that \<open>ListenAndServe\<close> returned an error other than \<open>ErrServerClosed\<close>.
  The initial state is the one in which \<open>main\<close> blocks on \<open><-stop\<close>.
\<close>

datatype main_pc = AwaitSignal | AtCancel | AtWait | MainReturned

datatype serve_pc = AwaitDone | AtShutdown | InShutdown | AtWgDone | ServeReturned

datatype listen_error = ListenError | ErrServerClosed

datatype listen_pc = InListenAndServe | AtExit listen_error | Exited

record process =
  mainT :: main_pc
  startT :: sched_pc
  serveT :: serve_pc
  listenT :: listen_pc
  ctx_done :: bool
  wg :: int
  inShutdown :: bool
  listen_failed :: bool
  exit_status :: "nat option"

definition process_init :: process where
  "process_init =
     \<lparr>mainT = AwaitSignal, startT = AtSelect, serveT = AwaitDone,
      listenT = InListenAndServe, ctx_done = False, wg = 2, inShutdown = False,
      listen_failed = False, exit_status = None\<rparr>"

inductive process_step :: "nat \<Rightarrow> process \<Rightarrow> process \<Rightarrow> bool" for interval :: nat where
  interrupt:
    "exit_status p = None \<Longrightarrow> mainT p = AwaitSignal \<Longrightarrow>
     process_step interval p (p\<lparr>mainT := AtCancel\<rparr>)"
| cancel:
    "exit_status p = None \<Longrightarrow> mainT p = AtCancel \<Longrightarrow>
     process_step interval p (p\<lparr>mainT := AtWait, ctx_done := True\<rparr>)"
| wait_returns:
    "exit_status p = None \<Longrightarrow> mainT p = AtWait \<Longrightarrow> wg p = 0 \<Longrightarrow>
     process_step interval p (p\<lparr>mainT := MainReturned, exit_status := Some 0\<rparr>)"
| start_moves:
    "exit_status p = None \<Longrightarrow> startT p \<noteq> Returned \<Longrightarrow>
     process_step interval p
       (p\<lparr>startT := Start_pc (ctx_done p) interval (startT p),
          wg := (if Start_pc (ctx_done p) interval (startT p) = Returned
                 then wg p - 1 else wg p)\<rparr>)"
| serve_wakes:
    "exit_status p = None \<Longrightarrow> serveT p = AwaitDone \<Longrightarrow> ctx_done p \<Longrightarrow>
     process_step interval p (p\<lparr>serveT := AtShutdown\<rparr>)"
| shutdown_called:
    "exit_status p = None \<Longrightarrow> serveT p = AtShutdown \<Longrightarrow>
     process_step interval p (p\<lparr>serveT := InShutdown, inShutdown := True\<rparr>)"
| shutdown_returns:
    "exit_status p = None \<Longrightarrow> serveT p = InShutdown \<Longrightarrow>
     process_step interval p (p\<lparr>serveT := AtWgDone\<rparr>)"
| serve_done:
    "exit_status p = None \<Longrightarrow> serveT p = AtWgDone \<Longrightarrow>
     process_step interval p (p\<lparr>serveT := ServeReturned, wg := wg p - 1\<rparr>)"
| listen_fails:
    "exit_status p = None \<Longrightarrow> listenT p = InListenAndServe \<Longrightarrow> \<not> inShutdown p \<Longrightarrow>
     process_step interval p (p\<lparr>listenT := AtExit ListenError, listen_failed := True\<rparr>)"
| listen_closed:
    "exit_status p = None \<Longrightarrow> listenT p = InListenAndServe \<Longrightarrow> inShutdown p \<Longrightarrow>
     process_step interval p (p\<lparr>listenT := AtExit ErrServerClosed\<rparr>)"
| listener_exits:
    "exit_status p = None \<Longrightarrow> listenT p = AtExit err \<Longrightarrow>
     process_step interval p (p\<lparr>listenT := Exited, exit_status := Some 1\<rparr>)"

inductive reachable :: "nat \<Rightarrow> process \<Rightarrow> bool" for interval :: nat where
  init: "reachable interval process_init"
| step: "reachable interval p \<Longrightarrow> process_step interval p q \<Longrightarrow> reachable interval q"

text \<open>
  What holds in every reachable state: the wait group counts the goroutines that have
  not called \<open>wg.Done()\<close>, \<open>main\<close> is past the cancellation once the context is
  cancelled, and status 0 belongs to the return of \<open>main\<close>.
\<close>

definition teardown_inv :: "process \<Rightarrow> bool" where
  "teardown_inv p \<longleftrightarrow>
     wg p = (if startT p = Returned then 0 else 1) + (if serveT p = ServeReturned then 0 else 1) \<and>
     (mainT p = AtWait \<or> mainT p = MainReturned \<or> \<not> ctx_done p) \<and>
     (exit_status p = Some 0) = (mainT p = MainReturned) \<and>
     (mainT p \<noteq> MainReturned \<or> wg p = 0) \<and>
     (startT p \<noteq> Returned \<or> ctx_done p) \<and>
     (serveT p = AwaitDone \<or> ctx_done p)"

section \<open>The handler of \<open>/metrics\<close>\<close>

text \<open>
  The function registered for \<open>/metrics\<close> builds a handler with
  \<open>promhttp.HandlerFor(..., HandlerOpts{MaxRequestsInFlight: 40})\<close> and calls its
  \<open>ServeHTTP\<close>, once per request. In \<open>promhttp\<close> the limit is a semaphore that
  \<open>HandlerFor\<close> allocates for the handler it returns: \<open>ServeHTTP\<close> takes a slot of it
  for the time of the rendering, or answers 503 when none is free; a limit of zero means
  no limit. \<open>Handler\<close> holds the limit and the number of slots taken.
\<close>

record Handler =
  MaxRequestsInFlight :: nat
  inFlightSem :: nat

definition HandlerFor :: "nat \<Rightarrow> Handler" where
  "HandlerFor limit = \<lparr>MaxRequestsInFlight = limit, inFlightSem = 0\<rparr>"

datatype response = Render | ServiceUnavailable

definition ServeHTTP :: "Handler \<Rightarrow> response \<times> Handler" where
  "ServeHTTP h =
     (if MaxRequestsInFlight h = 0 \<or> inFlightSem h < MaxRequestsInFlight h
      then (Render, h\<lparr>inFlightSem := inFlightSem h + 1\<rparr>)
      else (ServiceUnavailable, h))"

text \<open>
  \<open>net/http\<close> runs the registered function in a goroutine of its own for every request.
  The server state counts the renderings in flight and the requests answered 503.
\<close>

datatype event = Request | RenderDone

record server =
  rendering :: nat
  rejected :: nat

fun serve_event :: "event \<Rightarrow> server \<Rightarrow> server" where
  "serve_event Request s =
     (case fst (ServeHTTP (HandlerFor 40)) of
        Render \<Rightarrow> s\<lparr>rendering := rendering s + 1\<rparr>
      | ServiceUnavailable \<Rightarrow> s\<lparr>rejected := rejected s + 1\<rparr>)"
| "serve_event RenderDone s = s\<lparr>rendering := rendering s - 1\<rparr>"

definition serve_events :: "event list \<Rightarrow> server \<Rightarrow> server" where
  "serve_events evs s = fold serve_event evs s"

section \<open>The earlier entry point (\<open>cas_exporter.go\<close>)\<close>

text \<open>\<open>strings.Split\<close> with a separator of one byte.\<close>

fun Split :: "string \<Rightarrow> char \<Rightarrow> string list" where
  "Split [] sep = [[]]"
| "Split (c # s) sep =
     (if c = sep then [] # Split s sep
      else (case Split s sep of [] \<Rightarrow> [[c]] | x # xs \<Rightarrow> (c # x) # xs))"

text \<open>The map \<open>headers\<close> as \<open>initializeHeaders\<close> fills it.\<close>

definition headers :: "(string \<times> string) list" where
  "headers =
     [
      (''occupancy_blk'', ''Occupancy [4KiB blocks]''),
      (''occupancy_pct'', ''Occupancy [%]''),
      (''free_blk'', ''Free [4KiB blocks]''),
      (''free_pct'', ''Free [%]''),
      (''clean_blk'', ''Clean [4KiB blocks]''),
      (''clean_pct'', ''Clean [%]''),
      (''diry_blk'', ''Dirty [4KiB blocks]''),
      (''dirty_pct'', ''Dirty [%]''),
      (''rd_hit_blk'', ''Read hits [Requests]''),
      (''rd_hit_pct'', ''Read hits [%]''),
      (''rd_part_misses_blk'', ''Read partial misses [Requests]''),
      (''rd_part_misses_pct'', ''Read partial misses [%]''),
      (''rd_full_misses_blk'', ''Read full misses [Requests]''),
      (''rd_full_misses_pct'', ''Read full misses [%]''),
      (''rd_total_blk'', ''Read total [Requests]''),
      (''rd_total_pct'', ''Read total [%]''),
      (''wt_hit_blk'', ''Write hits [Requests]''),
      (''wt_hit_pct'', ''Write hits [%]''),
      (''wt_part_misses_blk'', ''Write partial misses [Requests]''),
      (''wt_part_misses_pct'', ''Write partial misses [%]''),
      (''wt_full_misses_blk'', ''Write full misses [Requests]''),
      (''wt_full_misses_pct'', ''Write full misses [%]''),
      (''wt_total_blk'', ''Write total [Requests]''),
      (''wt_total_pct'', ''Write total [%]''),
      (''passthru_rd_blk'', ''Pass-Through reads [Requests]''),
      (''passthru_rd_pct'', ''Pass-Through reads [%]''),
      (''passthru_wt_blk'', ''Pass-Through writes [Requests]''),
      (''passthru_wt_pct'', ''Pass-Through writes [%]''),
      (''serviced_blk'', ''Serviced requests [Requests]''),
      (''serviced_pct'', ''Serviced requests [%]''),
      (''total_request_blk'', ''Total requests [Requests]''),
      (''total_request_pct'', ''Total requests [%]''),
      (''rd_core_blk'', ''Reads from core(s) [4KiB blocks]''),
      (''rd_core_pct'', ''Reads from core(s) [%]''),
      (''wt_core_blk'', ''Writes to core(s) [4KiB blocks]''),
      (''wt_core_pct'', ''Writes to core(s) [%]''),
      (''total_core_blk'', ''Total to/from core(s) [4KiB blocks]''),
      (''total_core_pct'', ''Total to/from core(s) [%]''),
      (''rd_cache_blk'', ''Reads from cache [4KiB blocks]''),
      (''rd_cache_pct'', ''Reads from cache [%]''),
      (''wt_cache_blk'', ''Writes to cache [4KiB blocks]''),
      (''wt_cache_pct'', ''Writes to cache [%]''),
      (''total_cache_blk'', ''Total to/from cache [4KiB blocks]''),
      (''total_cache_pct'', ''Total to/from cache [%]''),
      (''rd_cas_blk'', ''Reads from exported object(s) [4KiB blocks]''),
      (''rd_cas_pct'', ''Reads from exported object(s) [%]''),
      (''wt_cas_blk'', ''Writes to exported object(s) [4KiB blocks]''),
      (''wt_cas_pct'', ''Writes to exported object(s) [%]''),
      (''total_cas_blk'', ''Total to/from exported object(s) [4KiB blocks]''),
      (''total_cas_pct'', ''Total to/from exported object(s) [%]''),
      (''cache_rd_error_blk'', ''Cache read errors [Requests]''),
      (''cache_rd_error_pct'', ''Cache read errors [%]''),
      (''cache_wt_error_blk'', ''Cache write errors [Requests]''),
      (''cache_wt_error_pct'', ''Cache write errors [%]''),
      (''cache_total_error_blk'', ''Cache total errors [Requests]''),
      (''cache_total_error_pct'', ''Cache total errors [%]''),
      (''core_rd_error_blk'', ''Core read errors [Requests]''),
      (''core_rd_error_pct'', ''Core read errors [%]''),
      (''core_wt_error_blk'', ''Core write errors [Requests]''),
      (''core_wt_error_pct'', ''Core write errors [%]''),
      (''core_total_error_blk'', ''Core total errors [Requests]''),
      (''core_total_error_pct'', ''Core total errors [%]''),
      (''total_error_blk'', ''Total errors [Requests]''),
      (''total_error_pct'', ''Total errors [%]'')
     ]"

definition headers_at :: "string \<Rightarrow> string" where
  "headers_at key = (case map_of headers key of None \<Rightarrow> [] | Some v \<Rightarrow> v)"

text \<open>
  The inner loop of \<open>mapHeaders\<close>: the first position from \<open>i\<close> on whose column
  contains the keyword.
\<close>

fun find_column :: "string list \<Rightarrow> string \<Rightarrow> nat \<Rightarrow> nat option" where
  "find_column [] header_keyword i = None"
| "find_column (csv_header # rest) header_keyword i =
     (if Contains csv_header header_keyword then Some i
      else find_column rest header_keyword (Suc i))"

text \<open>
  The outer loop of \<open>mapHeaders\<close>, over the keys in the order in which \<open>range headers\<close>
  produced them (Go leaves that order open, so it is an argument). The variable
  \<open>found\<close> is declared before the loop and never set back to false.
\<close>

fun mapHeaders_keys ::
  "string list \<Rightarrow> string list \<Rightarrow> bool \<Rightarrow> (string \<rightharpoonup> nat) \<Rightarrow> int \<times> (string \<rightharpoonup> nat)" where
  "mapHeaders_keys [] csv_headers found headerMap = (0, headerMap)"
| "mapHeaders_keys (key # all_keys) csv_headers found headerMap =
     (case find_column csv_headers (headers_at key) 0 of
        Some i \<Rightarrow>
          mapHeaders_keys all_keys csv_headers True (headerMap(headers_at key \<mapsto> i))
      | None \<Rightarrow>
          if \<not> found then (1, headerMap)
          else mapHeaders_keys all_keys csv_headers found headerMap)"

definition mapHeaders :: "string list \<Rightarrow> string \<Rightarrow> int \<times> (string \<rightharpoonup> nat)" where
  "mapHeaders all_keys headerline =
     mapHeaders_keys all_keys (Split headerline (CHR '','')) False Map.empty"





section \<open>Concrete scenarios\<close>

definition zero_stats :: CacheStats where
  "zero_stats =
     \<lparr>
      StatsID = 0, Size4K = 0, SizeGB = 0, StatsDevice = '''', ExportedObject = '''',
      CoreDevices = 0, InactiveCoreDevices = 0, StatsWritePolicy = '''',
      CleaningPolicy = '''', PromotionPolicy = '''', CacheLineSizeKB = 0,
      MetadataMemoryFootprintMB = 0, DirtyForS = 0, DirtyFor = '''', StatsStatus = '''',
      Occupancy4K = 0, OccupancyPercent = 0, Free4K = 0, FreePercent = 0, Clean4K = 0,
      CleanPercent = 0, Dirty4K = 0, DirtyPercent = 0, ReadHitsRequests = 0,
      ReadHitsPercent = 0, ReadPartialMissesRequests = 0, ReadPartialMissesPercent = 0,
      ReadFullMissesRequests = 0, ReadFullMissesPercent = 0, ReadTotalRequests = 0,
      ReadTotalPercent = 0, WriteHitsRequests = 0, WriteHitsPercent = 0,
      WritePartialMissesRequests = 0, WritePartialMissesPercent = 0,
      WriteFullMissesRequests = 0, WriteFullMissesPercent = 0, WriteTotalRequests = 0,
      WriteTotalPercent = 0, PassThroughReadsRequests = 0, PassThroughReadsPercent = 0,
      PassThroughWritesRequests = 0, PassThroughWritesPercent = 0,
      ServicedRequestsRequests = 0, ServicedRequestsPercent = 0, TotalRequestsRequests = 0,
      TotalRequestsPercent = 0, ReadsFromCores4K = 0, ReadsFromCoresPercent = 0,
      WritesFromCores4K = 0, WritesFromCoresPercent = 0, TotalToFromCores4K = 0,
      TotalToFromCoresPercent = 0, ReadsFromCache4K = 0, ReadsFromCachePercent = 0,
      WritesToCachce4K = 0, WritesToCachcePercent = 0, TotalToFromCache4K = 0,
      TotalToFromCachePercent = 0, ReadsFromExportedObjects4K = 0,
      ReadsFromExportedObjectsPercent = 0, WritesToExportedObjects4K = 0,
      WritesToExportedObjectsPercent = 0, TotalToFromExportedObjects4K = 0,
      TotalToFromExportedObjectsPercent = 0, CacheReadErrorsRequests = 0,
      CacheReadErrorsPercent = 0, CacheWriteErrorsRequests = 0,
      CacheWriteErrorsPercent = 0, CacheTotalErrorsRequests = 0,
      CacheTotalErrorsPercent = 0, CoreReadErrorsRequests = 0, CoreReadErrorsPercent = 0,
      CoreWriteErrorsRequests = 0, CoreWriteErrorsPercent = 0, CoreTotalErrorsRequests = 0,
      CoreTotalErrorsPercent = 0, TotalErrorsRequests = 0, TotalErrorsPercent = 0
     \<rparr>"

text \<open>
  Three entities: the first is sampled with success, the second carries the device
  \<open>-\<close>, the sample of the third fails. The sample of the first has two rows.
\<close>

definition cacheA :: Cache where
  "cacheA = \<lparr>Type = ''core'', ID = 1, Disk = ''/dev/sdb'', Status = ''Active'',
             WritePolicy = ''-'', Device = ''/dev/sda''\<rparr>"

definition cacheB :: Cache where
  "cacheB = \<lparr>Type = ''cache'', ID = 2, Disk = ''/dev/nvme0n1'', Status = ''Running'',
             WritePolicy = ''wt'', Device = ''-''\<rparr>"

definition cacheC :: Cache where
  "cacheC = \<lparr>Type = ''core'', ID = 3, Disk = ''/dev/sdd'', Status = ''Active'',
             WritePolicy = ''-'', Device = ''/dev/sdc''\<rparr>"

definition demo_list_csv :: bytes where
  "demo_list_csv =
     ''type,id,disk,status,write policy,device'' @ [CHR 0x0A] @
     ''core,1,/dev/sdb,Active,-,/dev/sda'' @ [CHR 0x0A] @
     ''cache,2,/dev/nvme0n1,Running,wt,-'' @ [CHR 0x0A] @
     ''core,3,/dev/sdd,Active,-,/dev/sdc'' @ [CHR 0x0A]"

definition demo_stats_csv :: bytes where
  "demo_stats_csv =
     ''Cache Id,Occupancy [4KiB Blocks],Occupancy [%],Read total [%],'' @
     ''Write total [%],Pass-Through reads [Requests],Pass-Through reads [%],'' @
     ''Pass-Through writes [Requests],Pass-Through writes [%]'' @ [CHR 0x0A] @
     ''1,100,42.5,50.0,25.0,7,3.5,9,4.5'' @ [CHR 0x0A] @
     ''1,200,85.0,0.0,0.0,0,0.0,0,0.0'' @ [CHR 0x0A]"

definition demo_stats :: CacheStats where
  "demo_stats =
     zero_stats\<lparr>StatsID := 1, Occupancy4K := 100, OccupancyPercent := 42.5,
       ReadTotalPercent := 50, WriteTotalPercent := 25, PassThroughReadsRequests := 7,
       PassThroughReadsPercent := 3.5, PassThroughWritesRequests := 9,
       PassThroughWritesPercent := 4.5\<rparr>"

definition demo_stats_second :: CacheStats where
  "demo_stats_second = zero_stats\<lparr>StatsID := 1, Occupancy4K := 200, OccupancyPercent := 85\<rparr>"

definition demo_env :: env where
  "demo_env =
     \<lparr>CombinedOutput =
        (\<lambda>args. if args = ListCaches_args then (demo_list_csv, None)
                else if args = GetCacheStats_args 1 then (demo_stats_csv, None)
                else (''Error: cache is not running'', Some ''exit status 1'')),
      UnmarshalCaches =
        (\<lambda>b. if b = demo_list_csv then Inr [cacheA, cacheB, cacheC]
             else Inl ''empty csv file given''),
      UnmarshalStats =
        (\<lambda>b. if b = demo_stats_csv then Inr [demo_stats, demo_stats_second]
             else Inl ''empty csv file given''),
      Since = 0.25\<rparr>"

text \<open>A world in which \<open>casadm\<close> cannot be run at all.\<close>

definition down_env :: env where
  "down_env =
     demo_env\<lparr>CombinedOutput :=
       (\<lambda>args. (''casadm: command not found'', Some ''exit status 127''))\<rparr>"



text \<open>An exporter that has seen one entity in an earlier cycle.\<close>

definition seen_exporter :: CasExporter where
  "seen_exporter =
     (NewCasExporter 30)
       \<lparr>ocfStatCount := [(''/dev/sda'', ''1'', ''usage'', ''occupancy'') \<mapsto> 100],
        ocfStatPercentage := [(''/dev/sda'', ''1'', ''usage'', ''occupancy'') \<mapsto> 42.5],
        ocfStatDuration := Some 0.25, ocfStatSuccess := Some 1,
        calls := [CallListCaches, CallGetCacheStats 1]\<rparr>"


text \<open>
  The state after an interrupt in which the listener goroutine has run \<open>os.Exit(1)\<close>
  on \<open>ErrServerClosed\<close>, and the state after a teardown in which it never ran.
\<close>

definition killed_by_listener :: process where
  "killed_by_listener =
     \<lparr>mainT = AtWait, startT = AtSelect, serveT = InShutdown, listenT = Exited,
      ctx_done = True, wg = 2, inShutdown = True, listen_failed = False,
      exit_status = Some 1\<rparr>"

definition clean_exit :: process where
  "clean_exit =
     \<lparr>mainT = MainReturned, startT = Returned, serveT = ServeReturned,
      listenT = InListenAndServe, ctx_done = True, wg = 0, inShutdown = True,
      listen_failed = False, exit_status = Some 0\<rparr>"

section \<open>Auxiliary facts\<close>

subsection \<open>Substrings\<close>




subsection \<open>Decimal text is injective\<close>

lemma digit_inj: "a < 10 \<Longrightarrow> b < 10 \<Longrightarrow> digit a = digit b \<Longrightarrow> a = b"
proof -
  assume a: "a < 10" and b: "b < 10" and e: "digit a = digit b"
  have d: "distinct ''0123456789''" by simp
  have "length ''0123456789'' = 10" by simp
  with a b e d show "a = b"
    unfolding digit_def by (metis nth_eq_iff_index_eq)
qed

lemma utoa_not_Nil: "utoa n \<noteq> []"
  by (subst utoa.simps) simp

lemma utoa_inj: "utoa m = utoa n \<Longrightarrow> m = n"
proof (induction m arbitrary: n rule: utoa.induct)
  case (1 m)
  show ?case
  proof (cases "m < 10")
    case True
    then have m: "utoa m = [digit m]" by (subst utoa.simps) simp
    show ?thesis
    proof (cases "n < 10")
      case True
      then have "utoa n = [digit n]" by (subst utoa.simps) simp
      with m "1.prems" have "digit m = digit n" by simp
      with \<open>m < 10\<close> \<open>n < 10\<close> show ?thesis by (rule digit_inj)
    next
      case False
      then have "utoa n = utoa (n div 10) @ [digit (n mod 10)]" by (subst utoa.simps) simp
      with m "1.prems" have "utoa (n div 10) = []" by simp
      with utoa_not_Nil show ?thesis by blast
    qed
  next
    case False
    then have m: "utoa m = utoa (m div 10) @ [digit (m mod 10)]" by (subst utoa.simps) simp
    show ?thesis
    proof (cases "n < 10")
      case True
      then have "utoa n = [digit n]" by (subst utoa.simps) simp
      with m "1.prems" have "utoa (m div 10) = []" by simp
      with utoa_not_Nil show ?thesis by blast
    next
      case nbig: False
      then have "utoa n = utoa (n div 10) @ [digit (n mod 10)]" by (subst utoa.simps) simp
      with m "1.prems" have e: "utoa (m div 10) = utoa (n div 10)"
        and d: "digit (m mod 10) = digit (n mod 10)" by simp_all
      from "1.IH" [OF False e] have q: "m div 10 = n div 10" .
      have "m mod 10 < 10" "n mod 10 < 10" by simp_all
      with d have r: "m mod 10 = n mod 10" by (simp add: digit_inj)
      from q r show ?thesis by (metis div_mult_mod_eq)
    qed
  qed
qed

lemma Itoa_uint_inj: "Itoa (uint (a :: 16 word)) = Itoa (uint b) \<Longrightarrow> a = b"
proof -
  assume "Itoa (uint a) = Itoa (uint b)"
  then have "utoa (nat (uint a)) = utoa (nat (uint b))" by (simp add: Itoa_def)
  then have "nat (uint a) = nat (uint b)" by (rule utoa_inj)
  then have "unat a = unat b" by simp
  then show "a = b" by (rule word_unat_eq_iff [THEN iffD2])
qed

subsection \<open>Writing a table of points into a gauge vector\<close>

lemma fold_Set_gauge_other:
  "(dev', ident') \<noteq> (dev, ident) \<Longrightarrow>
   fold (Set_gauge dev ident) pts m (dev', ident', cat, sub) = m (dev', ident', cat, sub)"
  by (induction pts arbitrary: m) (auto simp: Set_gauge_def)

lemma fold_Set_gauge_absent:
  "(cat, sub) \<notin> (\<lambda>p. (fst p, fst (snd p))) ` set pts \<Longrightarrow>
   fold (Set_gauge dev ident) pts m (dev, ident, cat, sub) = m (dev, ident, cat, sub)"
  by (induction pts arbitrary: m) (auto simp: Set_gauge_def)

lemma fold_Set_gauge_hit:
  "distinct (map (\<lambda>p. (fst p, fst (snd p))) pts) \<Longrightarrow> (cat, sub, v) \<in> set pts \<Longrightarrow>
   fold (Set_gauge dev ident) pts m (dev, ident, cat, sub) = Some v"
proof (induction pts arbitrary: m)
  case Nil
  then show ?case by simp
next
  case (Cons p pts)
  show ?case
  proof (cases "p = (cat, sub, v)")
    case True
    with Cons.prems(1) have "(cat, sub) \<notin> (\<lambda>p. (fst p, fst (snd p))) ` set pts" by auto
    then show ?thesis using True
      by (simp add: fold_Set_gauge_absent) (simp add: Set_gauge_def)
  next
    case False
    with Cons.prems have "(cat, sub, v) \<in> set pts" "distinct (map (\<lambda>p. (fst p, fst (snd p))) pts)"
      by auto
    then show ?thesis using Cons.IH by simp
  qed
qed

lemma count_points_distinct: "distinct (map (\<lambda>p. (fst p, fst (snd p))) (count_points stats))"
  by (simp add: count_points_def)

lemma percent_points_distinct: "distinct (map (\<lambda>p. (fst p, fst (snd p))) (percent_points stats))"
  by (simp add: percent_points_def)

subsection \<open>One cycle\<close>

lemma observe_calls [simp]: "calls (observe c stats e) = calls e"
  by (simp add: observe_def)

lemma observe_count_other:
  "(dev, ident) \<noteq> (Device c, Itoa (uint (ID c))) \<Longrightarrow>
   ocfStatCount (observe c stats e) (dev, ident, cat, sub) = ocfStatCount e (dev, ident, cat, sub)"
  by (simp add: observe_def fold_Set_gauge_other)

lemma observe_percent_other:
  "(dev, ident) \<noteq> (Device c, Itoa (uint (ID c))) \<Longrightarrow>
   ocfStatPercentage (observe c stats e) (dev, ident, cat, sub) =
   ocfStatPercentage e (dev, ident, cat, sub)"
  by (simp add: observe_def fold_Set_gauge_other)

lemma observe_count_hit:
  "(cat, sub, v) \<in> set (count_points stats) \<Longrightarrow>
   ocfStatCount (observe c stats e) (Device c, Itoa (uint (ID c)), cat, sub) = Some v"
  by (simp add: observe_def fold_Set_gauge_hit [OF count_points_distinct])

lemma observe_percent_hit:
  "(cat, sub, v) \<in> set (percent_points stats) \<Longrightarrow>
   ocfStatPercentage (observe c stats e) (Device c, Itoa (uint (ID c)), cat, sub) = Some v"
  by (simp add: observe_def fold_Set_gauge_hit [OF percent_points_distinct])

lemma range_caches_calls:
  "calls (snd (range_caches w cs success e)) =
   calls e @ map (\<lambda>c. CallGetCacheStats (ID c)) (filter (\<lambda>c. Device c \<noteq> ''-'') cs)"
  by (induction cs arbitrary: success e) (simp_all split: sum.splits)

lemma range_caches_count_inactive:
  "ocfStatCount (snd (range_caches w cs success e)) (''-'', ident, cat, sub) =
   ocfStatCount e (''-'', ident, cat, sub)"
  by (induction cs arbitrary: success e) (simp_all add: observe_count_other split: sum.splits)

lemma range_caches_percent_inactive:
  "ocfStatPercentage (snd (range_caches w cs success e)) (''-'', ident, cat, sub) =
   ocfStatPercentage e (''-'', ident, cat, sub)"
  by (induction cs arbitrary: success e) (simp_all add: observe_percent_other split: sum.splits)

lemma cycle_Inl:
  "ListCaches w = Inl err \<Longrightarrow>
   cycle w e =
     e\<lparr>calls := calls e @ [CallListCaches], ocfStatDuration := Some (Since w),
       ocfStatSuccess := Some 0\<rparr>"
  by (simp add: cycle_def)

lemma cycle_Inr:
  "ListCaches w = Inr caches \<Longrightarrow>
   cycle w e =
     (snd (range_caches w caches 1 (e\<lparr>calls := calls e @ [CallListCaches]\<rparr>)))
       \<lparr>ocfStatDuration := Some (Since w),
        ocfStatSuccess :=
          Some (real_of_int
            (fst (range_caches w caches 1 (e\<lparr>calls := calls e @ [CallListCaches]\<rparr>))))\<rparr>"
  by (simp add: cycle_def case_prod_beta Let_def)

lemma cycle_calls:
  "calls (cycle w e) =
   calls e @ CallListCaches #
     (case ListCaches w of
        Inl err \<Rightarrow> []
      | Inr caches \<Rightarrow> map (\<lambda>c. CallGetCacheStats (ID c)) (filter (\<lambda>c. Device c \<noteq> ''-'') caches))"
  by (cases "ListCaches w") (simp_all add: cycle_Inl cycle_Inr range_caches_calls)



lemma range_caches_count_kept:
  assumes "GetCacheStats w (ID A) = Inr sa"
      and "(cat, sub, v) \<in> set (count_points sa)"
      and "ocfStatCount e (Device A, Itoa (uint (ID A)), cat, sub) = Some v"
  shows "ocfStatCount (snd (range_caches w cs success e))
           (Device A, Itoa (uint (ID A)), cat, sub) = Some v"
  using assms(3)
proof (induction cs arbitrary: success e)
  case Nil
  then show ?case by simp
next
  case (Cons c cs)
  let ?e = "e\<lparr>calls := calls e @ [CallGetCacheStats (ID c)]\<rparr>"
  show ?case
  proof (cases "Device c = ''-''")
    case True
    with Cons show ?thesis by simp
  next
    case active: False
    show ?thesis
    proof (cases "GetCacheStats w (ID c)")
      case (Inl err)
      have "ocfStatCount ?e (Device A, Itoa (uint (ID A)), cat, sub) = Some v"
        using Cons.prems by simp
      from Cons.IH [OF this] show ?thesis using active Inl by simp
    next
      case (Inr st)
      have "ocfStatCount (observe c st ?e) (Device A, Itoa (uint (ID A)), cat, sub) = Some v"
      proof (cases "(Device A, Itoa (uint (ID A))) = (Device c, Itoa (uint (ID c)))")
        case True
        then have "ID A = ID c" by (simp add: Itoa_uint_inj)
        with Inr assms(1) have "st = sa" by simp
        with assms(2) True show ?thesis by (simp add: observe_count_hit)
      next
        case False
        then show ?thesis using Cons.prems by (simp add: observe_count_other)
      qed
      from Cons.IH [OF this] show ?thesis using active Inr by simp
    qed
  qed
qed

lemma range_caches_count_present:
  assumes "GetCacheStats w (ID A) = Inr sa"
      and "(cat, sub, v) \<in> set (count_points sa)"
      and "Device A \<noteq> ''-''"
      and "A \<in> set cs"
  shows "ocfStatCount (snd (range_caches w cs success e))
           (Device A, Itoa (uint (ID A)), cat, sub) = Some v"
  using assms(4)
proof (induction cs arbitrary: success e)
  case Nil
  then show ?case by simp
next
  case (Cons c cs)
  show ?case
  proof (cases "c = A")
    case True
    then show ?thesis
      using assms(1,2,3)
      by (simp add: range_caches_count_kept [OF assms(1,2)] observe_count_hit)
  next
    case False
    with Cons.prems have "A \<in> set cs" by simp
    from Cons.IH [OF this] show ?thesis by (simp split: sum.splits)
  qed
qed

lemma range_caches_percent_kept:
  assumes "GetCacheStats w (ID A) = Inr sa"
      and "(cat, sub, v) \<in> set (percent_points sa)"
      and "ocfStatPercentage e (Device A, Itoa (uint (ID A)), cat, sub) = Some v"
  shows "ocfStatPercentage (snd (range_caches w cs success e))
           (Device A, Itoa (uint (ID A)), cat, sub) = Some v"
  using assms(3)
proof (induction cs arbitrary: success e)
  case Nil
  then show ?case by simp
next
  case (Cons c cs)
  let ?e = "e\<lparr>calls := calls e @ [CallGetCacheStats (ID c)]\<rparr>"
  show ?case
  proof (cases "Device c = ''-''")
    case True
    with Cons show ?thesis by simp
  next
    case active: False
    show ?thesis
    proof (cases "GetCacheStats w (ID c)")
      case (Inl err)
      have "ocfStatPercentage ?e (Device A, Itoa (uint (ID A)), cat, sub) = Some v"
        using Cons.prems by simp
      from Cons.IH [OF this] show ?thesis using active Inl by simp
    next
      case (Inr st)
      have "ocfStatPercentage (observe c st ?e) (Device A, Itoa (uint (ID A)), cat, sub) = Some v"
      proof (cases "(Device A, Itoa (uint (ID A))) = (Device c, Itoa (uint (ID c)))")
        case True
        then have "ID A = ID c" by (simp add: Itoa_uint_inj)
        with Inr assms(1) have "st = sa" by simp
        with assms(2) True show ?thesis by (simp add: observe_percent_hit)
      next
        case False
        then show ?thesis using Cons.prems by (simp add: observe_percent_other)
      qed
      from Cons.IH [OF this] show ?thesis using active Inr by simp
    qed
  qed
qed

lemma range_caches_percent_present:
  assumes "GetCacheStats w (ID A) = Inr sa"
      and "(cat, sub, v) \<in> set (percent_points sa)"
      and "Device A \<noteq> ''-''"
      and "A \<in> set cs"
  shows "ocfStatPercentage (snd (range_caches w cs success e))
           (Device A, Itoa (uint (ID A)), cat, sub) = Some v"
  using assms(4)
proof (induction cs arbitrary: success e)
  case Nil
  then show ?case by simp
next
  case (Cons c cs)
  show ?case
  proof (cases "c = A")
    case True
    then show ?thesis
      using assms(1,2,3)
      by (simp add: range_caches_percent_kept [OF assms(1,2)] observe_percent_hit)
  next
    case False
    with Cons.prems have "A \<in> set cs" by simp
    from Cons.IH [OF this] show ?thesis by (simp split: sum.splits)
  qed
qed

subsection \<open>The concrete scenarios, evaluated\<close>

lemma Itoa_digits:
  "Itoa 1 = ''1''" "Itoa 2 = ''2''" "Itoa 3 = ''3''"
  by (simp_all add: Itoa_def utoa.simps digit_def)

lemma demo_ListCaches: "ListCaches demo_env = Inr [cacheA, cacheB, cacheC]"
  by (simp add: ListCaches_def demo_env_def)

lemma demo_GetCacheStats_1: "GetCacheStats demo_env 1 = Inr demo_stats"
  by (simp add: GetCacheStats_def demo_env_def GetCacheStats_args_def ListCaches_args_def)


lemma demo_devices:
  "Device cacheA = ''/dev/sda''" "Device cacheB = ''-''" "Device cacheC = ''/dev/sdc''"
  "ID cacheA = 1" "ID cacheB = 2" "ID cacheC = 3"
  by (simp_all add: cacheA_def cacheB_def cacheC_def)

lemma down_ListCaches:
  "ListCaches down_env =
     Inl (''list caches: exit status 127: '' @ quote ''casadm: command not found'')"
  by (simp add: ListCaches_def down_env_def)


lemma cycle_count_present:
  assumes "ListCaches w = Inr caches"
      and "A \<in> set caches" and "Device A \<noteq> ''-''" and "GetCacheStats w (ID A) = Inr sa"
      and "(cat, sub, v) \<in> set (count_points sa)"
  shows "ocfStatCount (cycle w e) (Device A, Itoa (uint (ID A)), cat, sub) = Some v"
  using range_caches_count_present [OF assms(4,5,3,2)]
  by (simp add: cycle_Inr [OF assms(1)])

lemma cycle_percent_present:
  assumes "ListCaches w = Inr caches"
      and "A \<in> set caches" and "Device A \<noteq> ''-''" and "GetCacheStats w (ID A) = Inr sa"
      and "(cat, sub, v) \<in> set (percent_points sa)"
  shows "ocfStatPercentage (cycle w e) (Device A, Itoa (uint (ID A)), cat, sub) = Some v"
  using range_caches_percent_present [OF assms(4,5,3,2)]
  by (simp add: cycle_Inr [OF assms(1)])

lemma cacheA_sampled:
  "cacheA \<in> set [cacheA, cacheB, cacheC]" "Device cacheA \<noteq> ''-''"
  "GetCacheStats demo_env (ID cacheA) = Inr demo_stats"
  by (simp_all add: demo_devices demo_GetCacheStats_1)

lemma cacheA_labels: "(Device cacheA, Itoa (uint (ID cacheA))) = (''/dev/sda'', ''1'')"
  by (simp add: demo_devices Itoa_digits)

subsection \<open>The loop of \<open>Start\<close>\<close>

lemma Start_step_sleeping:
  "Start_step w cancelled (Sleeping (Suc k), e) = (Sleeping k, e)"
  by (simp add: Start_step_def)

lemma Start_run_asleep:
  "j \<le> k \<Longrightarrow> Start_run ws cancelled j (Sleeping k, e) = (Sleeping (k - j), e)"
proof (induction j)
  case 0
  then show ?case by simp
next
  case (Suc j)
  then have "Start_run ws cancelled j (Sleeping k, e) = (Sleeping (Suc (k - Suc j)), e)"
    by (simp add: Suc_diff_Suc)
  then show ?case by (simp add: Start_step_sleeping)
qed

lemma Start_run_wakes: "Start_run ws cancelled (Suc k) (Sleeping k, e) = (AtSelect, e)"
  by (simp add: Start_run_asleep Start_step_def)

lemma Start_run_returns:
  "cancelled (Suc k) \<Longrightarrow> Start_run ws cancelled (Suc (Suc k)) (Sleeping k, e) = (Returned, e)"
  using Start_run_wakes [of ws cancelled k e] by (simp add: Start_step_def)

subsection \<open>The process\<close>

lemma Start_pc_Returned:
  "pc \<noteq> Returned \<Longrightarrow> Start_pc cancelled interval pc = Returned \<longleftrightarrow> pc = AtSelect \<and> cancelled"
  by (induction cancelled interval pc rule: Start_pc.induct) simp_all

lemma teardown_inv_step:
  "process_step interval p q \<Longrightarrow> teardown_inv p \<Longrightarrow> teardown_inv q"
proof (induction rule: process_step.induct)
  case (start_moves p)
  then show ?case
    by (cases "startT p = AtSelect \<and> ctx_done p")
       (auto simp: teardown_inv_def Start_pc_Returned)
qed (auto simp: teardown_inv_def)

lemma teardown_inv_reachable: "reachable interval p \<Longrightarrow> teardown_inv p"
proof (induction rule: reachable.induct)
  case init
  show ?case by (simp add: teardown_inv_def process_init_def)
next
  case (step p q)
  then show ?case by (simp add: teardown_inv_step)
qed

lemma exit_0_after_teardown:
  assumes "reachable interval p" and "exit_status p = Some 0"
  shows "ctx_done p \<and> startT p = Returned \<and> serveT p = ServeReturned"
proof -
  from assms(1) have inv: "teardown_inv p" by (rule teardown_inv_reachable)
  with assms(2) have "mainT p = MainReturned" by (simp add: teardown_inv_def)
  with inv have "wg p = 0" "ctx_done p" by (auto simp: teardown_inv_def)
  with inv show ?thesis by (auto simp: teardown_inv_def split: if_splits)
qed

subsection \<open>The handler of \<open>/metrics\<close>\<close>

lemma fresh_handler_renders: "fst (ServeHTTP (HandlerFor 40)) = Render"
  by (simp add: ServeHTTP_def HandlerFor_def)

lemma serve_events_requests:
  "serve_events (replicate n Request) s = s\<lparr>rendering := rendering s + n\<rparr>"
  by (induction n arbitrary: s) (simp_all add: serve_events_def fresh_handler_renders)

subsection \<open>The earlier entry point\<close>

lemma mapHeaders_keys_found:
  "fst (mapHeaders_keys all_keys csv_headers True headerMap) = 0"
  by (induction all_keys arbitrary: headerMap) (simp_all split: option.splits)


lemma Split_not_Nil: "Split s sep \<noteq> []"
  by (induction s) (simp_all split: list.splits)

lemma headers_first: "map fst headers = ''occupancy_blk'' # tl (map fst headers)"
  by (simp add: headers_def)

lemma headers_at_occupancy_blk: "headers_at ''occupancy_blk'' = ''Occupancy [4KiB blocks]''"
  by (simp add: headers_at_def headers_def)

text \<open>
  Once one keyword has been found, \<open>mapHeaders\<close> reports no later one as missing: a
  header line with the first column only is mapped with return code 0.
\<close>

lemma mapHeaders_found_never_reset:
  "fst (mapHeaders (map fst headers) ''Occupancy [4KiB blocks]'') = 0"
proof -
  have split: "Split ''Occupancy [4KiB blocks]'' (CHR '','') = [''Occupancy [4KiB blocks]'']"
    by simp
  have col: "find_column [''Occupancy [4KiB blocks]''] ''Occupancy [4KiB blocks]'' 0 = Some 0"
    by simp
  show ?thesis
    unfolding mapHeaders_def split
    by (subst headers_first) (simp only: mapHeaders_keys.simps headers_at_occupancy_blk col
        option.case mapHeaders_keys_found)
qed



lemma clean_exit_reachable: "reachable interval clean_exit"
proof -
  let ?p1 = "process_init\<lparr>mainT := AtCancel\<rparr>"
  let ?p2 = "?p1\<lparr>mainT := AtWait, ctx_done := True\<rparr>"
  let ?p3 = "?p2\<lparr>startT := Start_pc (ctx_done ?p2) interval (startT ?p2),
      wg := (if Start_pc (ctx_done ?p2) interval (startT ?p2) = Returned
             then wg ?p2 - 1 else wg ?p2)\<rparr>"
  let ?p4 = "?p3\<lparr>serveT := AtShutdown\<rparr>"
  let ?p5 = "?p4\<lparr>serveT := InShutdown, inShutdown := True\<rparr>"
  let ?p6 = "?p5\<lparr>serveT := AtWgDone\<rparr>"
  let ?p7 = "?p6\<lparr>serveT := ServeReturned, wg := wg ?p6 - 1\<rparr>"
  let ?p8 = "?p7\<lparr>mainT := MainReturned, exit_status := Some 0\<rparr>"
  have s1: "process_step interval process_init ?p1"
    by (rule process_step.interrupt) (simp_all add: process_init_def)
  have s2: "process_step interval ?p1 ?p2"
    by (rule process_step.cancel) (simp_all add: process_init_def)
  have s3: "process_step interval ?p2 ?p3"
    by (rule process_step.start_moves) (simp_all add: process_init_def)
  have s4: "process_step interval ?p3 ?p4"
    by (rule process_step.serve_wakes) (simp_all add: process_init_def)
  have s5: "process_step interval ?p4 ?p5"
    by (rule process_step.shutdown_called) (simp_all add: process_init_def)
  have s6: "process_step interval ?p5 ?p6"
    by (rule process_step.shutdown_returns) (simp_all add: process_init_def)
  have s7: "process_step interval ?p6 ?p7"
    by (rule process_step.serve_done) (simp_all add: process_init_def)
  have s8: "process_step interval ?p7 ?p8"
    by (rule process_step.wait_returns) (simp_all add: process_init_def)
  have "reachable interval ?p8"
    by (intro reachable.step [OF _ s8] reachable.step [OF _ s7] reachable.step [OF _ s6]
        reachable.step [OF _ s5] reachable.step [OF _ s4] reachable.step [OF _ s3]
        reachable.step [OF _ s2] reachable.step [OF _ s1] reachable.init)
  moreover have "?p8 = clean_exit" by (simp add: clean_exit_def process_init_def)
  ultimately show ?thesis by simp
qed

section \<open>The claims\<close>

subsection \<open>C1: round trip of a sample\<close>

text \<open>
  C1 says that after one cycle over a sample every metric equals the input field it is
  named after, in particular that the count of \<open>requests/rd_pt\<close> is the Pass-Through
  reads request count and that of \<open>requests/wr_pt\<close> the Pass-Through writes request
  count. \<open>Start\<close> sets all four pass-through metrics from \<open>ReadTotalPercent\<close> and
  \<open>WriteTotalPercent\<close>. In the scenario the sample of entity 1 has 7 pass-through reads
  (3.5 %), 9 pass-through writes (4.5 %), a read total of 50 % and a write total of 25 %:
  after the cycle the count and the percentage of \<open>rd_pt\<close> are both 50, those of
  \<open>wr_pt\<close> both 25.
\<close>

theorem rd_pt_count_is_read_total_percent:
  "ListCaches demo_env = Inr [cacheA, cacheB, cacheC] \<and>
   GetCacheStats demo_env 1 = Inr demo_stats \<and>
   real_of_int (PassThroughReadsRequests demo_stats) = 7 \<and>
   real_of_int (PassThroughWritesRequests demo_stats) = 9 \<and>
   PassThroughReadsPercent demo_stats = 3.5 \<and>
   PassThroughWritesPercent demo_stats = 4.5 \<and>
   ocfStatCount (cycle demo_env (NewCasExporter 30))
     (''/dev/sda'', ''1'', ''requests'', ''rd_pt'') = Some 50 \<and>
   ocfStatCount (cycle demo_env (NewCasExporter 30))
     (''/dev/sda'', ''1'', ''requests'', ''wr_pt'') = Some 25 \<and>
   ocfStatPercentage (cycle demo_env (NewCasExporter 30))
     (''/dev/sda'', ''1'', ''requests'', ''rd_pt'') = Some 50 \<and>
   ocfStatPercentage (cycle demo_env (NewCasExporter 30))
     (''/dev/sda'', ''1'', ''requests'', ''wr_pt'') = Some 25"
proof -
  have fields: "real_of_int (PassThroughReadsRequests demo_stats) = 7"
    "real_of_int (PassThroughWritesRequests demo_stats) = 9"
    "PassThroughReadsPercent demo_stats = 3.5" "PassThroughWritesPercent demo_stats = 4.5"
    by (simp_all add: demo_stats_def zero_stats_def)
  have count: "(''requests'', ''rd_pt'', 50) \<in> set (count_points demo_stats)"
    "(''requests'', ''wr_pt'', 25) \<in> set (count_points demo_stats)"
    by (simp_all add: count_points_def demo_stats_def zero_stats_def)
  have percent: "(''requests'', ''rd_pt'', 50) \<in> set (percent_points demo_stats)"
    "(''requests'', ''wr_pt'', 25) \<in> set (percent_points demo_stats)"
    by (simp_all add: percent_points_def demo_stats_def zero_stats_def)
  note c = cycle_count_present [OF demo_ListCaches cacheA_sampled, of _ _ _ "NewCasExporter 30"]
  note p = cycle_percent_present [OF demo_ListCaches cacheA_sampled, of _ _ _ "NewCasExporter 30"]
  from c [OF count(1)] c [OF count(2)] p [OF percent(1)] p [OF percent(2)]
  show ?thesis
    unfolding cacheA_labels [THEN arg_cong, of fst, simplified]
      cacheA_labels [THEN arg_cong, of snd, simplified]
    by (simp add: fields demo_ListCaches demo_GetCacheStats_1)
qed

subsection \<open>C2: teardown and exit status\<close>

text \<open>
  C2 says that an interrupt without a listen failure ends in exit status 0, after the
  cancellation and after both tasks have reported completion, and that only a listen
  failure makes the process exit non-zero. The goroutine around \<open>ListenAndServe\<close>
  calls \<open>os.Exit(1)\<close> on every non-nil error, and \<open>ErrServerClosed\<close>, which
  \<open>ListenAndServe\<close> returns once \<open>Serve\<close> has called \<open>Shutdown\<close>, is one. So after
  interrupt, cancel, the wake-up of \<open>Serve\<close> and its call of \<open>Shutdown\<close> the listener
  goroutine can end the process with status 1 while \<open>main\<close> is still in \<open>wg.Wait()\<close>:
  no listen failure has occurred, and neither task has called \<open>wg.Done()\<close>.
\<close>

theorem interrupt_can_exit_1:
  "reachable 30 killed_by_listener \<and> ctx_done killed_by_listener \<and>
   listen_failed killed_by_listener = False \<and> exit_status killed_by_listener = Some 1"
proof -
  let ?p1 = "process_init\<lparr>mainT := AtCancel\<rparr>"
  let ?p2 = "?p1\<lparr>mainT := AtWait, ctx_done := True\<rparr>"
  let ?p3 = "?p2\<lparr>serveT := AtShutdown\<rparr>"
  let ?p4 = "?p3\<lparr>serveT := InShutdown, inShutdown := True\<rparr>"
  let ?p5 = "?p4\<lparr>listenT := AtExit ErrServerClosed\<rparr>"
  let ?p6 = "?p5\<lparr>listenT := Exited, exit_status := Some 1\<rparr>"
  have s1: "process_step 30 process_init ?p1"
    by (rule process_step.interrupt) (simp_all add: process_init_def)
  have s2: "process_step 30 ?p1 ?p2"
    by (rule process_step.cancel) (simp_all add: process_init_def)
  have s3: "process_step 30 ?p2 ?p3"
    by (rule process_step.serve_wakes) (simp_all add: process_init_def)
  have s4: "process_step 30 ?p3 ?p4"
    by (rule process_step.shutdown_called) (simp_all add: process_init_def)
  have s5: "process_step 30 ?p4 ?p5"
    by (rule process_step.listen_closed) (simp_all add: process_init_def)
  have s6: "process_step 30 ?p5 ?p6"
    by (rule process_step.listener_exits [where err = ErrServerClosed])
       (simp_all add: process_init_def)
  have "reachable 30 ?p6"
    by (intro reachable.step [OF _ s6] reachable.step [OF _ s5] reachable.step [OF _ s4]
        reachable.step [OF _ s3] reachable.step [OF _ s2] reachable.step [OF _ s1]
        reachable.init)
  moreover have "?p6 = killed_by_listener"
    by (simp add: killed_by_listener_def process_init_def)
  ultimately show ?thesis by (simp add: killed_by_listener_def)
qed

subsection \<open>C3: a required column that is missing\<close>




subsection \<open>C4: the errors of the adapter\<close>




subsection \<open>C5: inactive entities\<close>

text \<open>
  C5: when the enumeration succeeds, the cycle samples exactly the entities whose
  device is not \<open>-\<close>, in the order of the response, and no gauge carrying the device
  label \<open>-\<close> is created or changed.
\<close>

theorem inactive_entities_not_sampled:
  assumes "ListCaches w = Inr caches"
  shows "calls (cycle w e) =
           calls e @ CallListCaches #
             map (\<lambda>c. CallGetCacheStats (ID c)) (filter (\<lambda>c. Device c \<noteq> ''-'') caches) \<and>
         (\<forall>ident cat sub.
            ocfStatCount (cycle w e) (''-'', ident, cat, sub) =
              ocfStatCount e (''-'', ident, cat, sub) \<and>
            ocfStatPercentage (cycle w e) (''-'', ident, cat, sub) =
              ocfStatPercentage e (''-'', ident, cat, sub))"
  using assms
  by (simp add: cycle_Inr range_caches_calls range_caches_count_inactive
      range_caches_percent_inactive)

theorem inactive_entities_not_sampled_witness:
  "ListCaches demo_env = Inr [cacheA, cacheB, cacheC] \<and>
   Device cacheB = ''-'' \<and>
   calls (cycle demo_env seen_exporter) =
     [CallListCaches, CallGetCacheStats 1,
      CallListCaches, CallGetCacheStats 1, CallGetCacheStats 3] \<and>
   ocfStatCount (cycle demo_env seen_exporter) (''-'', ''2'', ''usage'', ''occupancy'') = None \<and>
   ocfStatPercentage (cycle demo_env seen_exporter) (''-'', ''2'', ''usage'', ''occupancy'') = None"
proof -
  have seen: "calls seen_exporter = [CallListCaches, CallGetCacheStats 1]"
    "ocfStatCount seen_exporter (''-'', ''2'', ''usage'', ''occupancy'') = None"
    "ocfStatPercentage seen_exporter (''-'', ''2'', ''usage'', ''occupancy'') = None"
    by (simp_all add: seen_exporter_def NewCasExporter_def)
  from inactive_entities_not_sampled [OF demo_ListCaches, of seen_exporter]
  show ?thesis by (simp add: demo_ListCaches demo_devices seen)
qed

subsection \<open>C6: a failing sample does not disturb the others\<close>



subsection \<open>C7: a failing enumeration\<close>

text \<open>
  C7: if \<open>ListCaches\<close> fails, the cycle sets the success gauge to 0 and the duration
  gauge to the measured time, invokes no sample, and leaves both statistics vectors as
  they were.
\<close>

theorem enumerate_failure_keeps_points:
  assumes "ListCaches w = Inl err"
  shows "ocfStatSuccess (cycle w e) = Some 0 \<and>
         ocfStatDuration (cycle w e) = Some (Since w) \<and>
         calls (cycle w e) = calls e @ [CallListCaches] \<and>
         ocfStatCount (cycle w e) = ocfStatCount e \<and>
         ocfStatPercentage (cycle w e) = ocfStatPercentage e"
  using assms by (simp add: cycle_Inl)

theorem enumerate_failure_keeps_points_witness:
  "isl (ListCaches down_env) \<and>
   ocfStatSuccess (cycle down_env seen_exporter) = Some 0 \<and>
   ocfStatDuration (cycle down_env seen_exporter) = Some 0.25 \<and>
   calls (cycle down_env seen_exporter) =
     [CallListCaches, CallGetCacheStats 1, CallListCaches] \<and>
   ocfStatCount (cycle down_env seen_exporter) (''/dev/sda'', ''1'', ''usage'', ''occupancy'') =
     Some 100 \<and>
   ocfStatPercentage (cycle down_env seen_exporter)
     (''/dev/sda'', ''1'', ''usage'', ''occupancy'') = Some 42.5"
proof -
  have seen: "calls seen_exporter = [CallListCaches, CallGetCacheStats 1]"
    "ocfStatCount seen_exporter (''/dev/sda'', ''1'', ''usage'', ''occupancy'') = Some 100"
    "ocfStatPercentage seen_exporter (''/dev/sda'', ''1'', ''usage'', ''occupancy'') = Some 42.5"
    by (simp_all add: seen_exporter_def NewCasExporter_def)
  have since: "Since down_env = 0.25" by (simp add: down_env_def demo_env_def)
  from enumerate_failure_keeps_points [OF down_ListCaches, of seen_exporter]
  show ?thesis by (simp add: down_ListCaches seen since)
qed

subsection \<open>C8: the wait between two cycles\<close>

text \<open>
  C8, as far as the code goes: an iteration of the loop of \<open>Start\<close> first reads the
  context and returns, without any work, if it is cancelled; otherwise it runs the cycle
  and then sleeps for the whole interval. The sleep is a plain \<open>time.Sleep\<close>: whatever
  the context does meanwhile, a scheduler with \<open>k\<close> ticks of sleep left is still asleep
  after each of the next \<open>k\<close> moves, is back at the head of the loop after \<open>k + 1\<close>,
  and returns after \<open>k + 2\<close> if the context is cancelled then. The latency of a
  cancellation is bounded by the interval, not by the wait.
\<close>

theorem Start_sleep_is_not_interruptible:
  "Start_step w True (AtSelect, e) = (Returned, e) \<and>
   Start_step w False (AtSelect, e) = (Sleeping (extractionInterval e), cycle w e) \<and>
   (\<forall>j \<le> k. Start_run ws cancelled j (Sleeping k, e) = (Sleeping (k - j), e)) \<and>
   Start_run ws cancelled (k + 1) (Sleeping k, e) = (AtSelect, e) \<and>
   (cancelled (k + 1) \<longrightarrow> Start_run ws cancelled (k + 2) (Sleeping k, e) = (Returned, e))"
proof (intro conjI allI impI)
  show "Start_step w True (AtSelect, e) = (Returned, e)"
    by (simp add: Start_step_def)
  show "Start_step w False (AtSelect, e) = (Sleeping (extractionInterval e), cycle w e)"
    by (simp add: Start_step_def)
  show "Start_run ws cancelled j (Sleeping k, e) = (Sleeping (k - j), e)" if "j \<le> k" for j
    using that by (rule Start_run_asleep)
  show "Start_run ws cancelled (k + 1) (Sleeping k, e) = (AtSelect, e)"
    using Start_run_wakes [of ws cancelled k e] by simp
  show "Start_run ws cancelled (k + 2) (Sleeping k, e) = (Returned, e)" if "cancelled (k + 1)"
    using that Start_run_returns [of cancelled k ws e] by simp
qed

theorem Start_sleep_is_not_interruptible_witness:
  "Start_run (\<lambda>t. demo_env) (\<lambda>t. True) 29 (Sleeping 29, NewCasExporter 30) =
     (Sleeping 0, NewCasExporter 30) \<and>
   Start_run (\<lambda>t. demo_env) (\<lambda>t. True) 30 (Sleeping 29, NewCasExporter 30) =
     (AtSelect, NewCasExporter 30) \<and>
   Start_run (\<lambda>t. demo_env) (\<lambda>t. True) 31 (Sleeping 29, NewCasExporter 30) =
     (Returned, NewCasExporter 30)"
proof -
  note inst = Start_sleep_is_not_interruptible
    [of demo_env "NewCasExporter 30" 29 "\<lambda>t. demo_env" "\<lambda>t. True"]
  from inst have "Start_run (\<lambda>t. demo_env) (\<lambda>t. True) 29 (Sleeping 29, NewCasExporter 30) =
      (Sleeping (29 - 29), NewCasExporter 30)"
    by blast
  moreover from inst have
    "Start_run (\<lambda>t. demo_env) (\<lambda>t. True) (29 + 1) (Sleeping 29, NewCasExporter 30) =
      (AtSelect, NewCasExporter 30)"
    "Start_run (\<lambda>t. demo_env) (\<lambda>t. True) (29 + 2) (Sleeping 29, NewCasExporter 30) =
      (Returned, NewCasExporter 30)"
    by blast+
  ultimately show ?thesis by simp
qed

text \<open>
  C8 as stated wants an interruptible wait. A scheduler with 29 ticks of sleep left
  that is moved with the context cancelled has 28 ticks left afterwards; it has not
  returned.
\<close>

theorem cancelled_sleep_goes_on:
  "Start_step demo_env True (Sleeping 29, NewCasExporter 30) =
     (Sleeping 28, NewCasExporter 30)"
proof -
  have "Sleeping 29 = Sleeping (Suc 28)" by simp
  then show ?thesis by (simp only: Start_step_sleeping)
qed

subsection \<open>C9: the ceiling on renderings in flight\<close>

text \<open>
  C9 says that at most 40 renderings are in flight at any moment and that a request
  arriving at the ceiling is rejected. The function registered for \<open>/metrics\<close> builds a
  new handler, with a semaphore of its own, for every request, so the slot it asks for is
  always free: of 41 requests that arrive before any rendering has finished, all 41 are
  rendering and none is rejected.
\<close>

theorem limit_of_40_never_applies:
  "serve_events (replicate 41 Request) \<lparr>rendering = 0, rejected = 0\<rparr> =
     \<lparr>rendering = 41, rejected = 0\<rparr>"
  by (simp add: serve_events_requests)

subsection \<open>C10: the first record of a sample\<close>

text \<open>
  C10: when the command succeeds and its output decodes, \<open>GetCacheStats\<close> returns the
  first decoded record, whatever follows it, and returns an error only if there is no
  record.
\<close>

theorem GetCacheStats_first_record:
  assumes "CombinedOutput w (GetCacheStats_args cacheID) = (b, None)"
      and "UnmarshalStats w b = Inr stats"
  shows "(stats \<noteq> [] \<longrightarrow> GetCacheStats w cacheID = Inr (hd stats)) \<and>
         (isl (GetCacheStats w cacheID) \<longleftrightarrow> stats = [])"
  using assms by (cases stats) (simp_all add: GetCacheStats_def)

theorem GetCacheStats_first_record_witness:
  "CombinedOutput demo_env (GetCacheStats_args 1) = (demo_stats_csv, None) \<and>
   UnmarshalStats demo_env demo_stats_csv = Inr [demo_stats, demo_stats_second] \<and>
   GetCacheStats demo_env 1 = Inr demo_stats \<and>
   \<not> isl (GetCacheStats demo_env 1)"
proof -
  have run: "CombinedOutput demo_env (GetCacheStats_args 1) = (demo_stats_csv, None)"
    by (simp add: demo_env_def GetCacheStats_args_def ListCaches_args_def)
  have dec: "UnmarshalStats demo_env demo_stats_csv = Inr [demo_stats, demo_stats_second]"
    by (simp add: demo_env_def)
  from GetCacheStats_first_record [OF run dec] run dec show ?thesis by simp
qed

end
